theory Spec2Isabelle
  imports Main "HOL-Library.Word"
begin

section \<open>JavaScript strings and byte buffers\<close>

text \<open>
  A JavaScript string is a sequence of 16-bit code units; \<open>length\<close>, \<open>substring\<close>,
  \<open>startsWith\<close>, \<open>endsWith\<close> and a regular expression without the \<open>u\<close> flag all
  work on code units. A \<open>Uint8Array\<close> or \<open>Buffer\<close> is a sequence of bytes.
\<close>

type_synonym jschar = "16 word"
type_synonym jsstring = "jschar list"
type_synonym byte = "8 word"

text \<open>An ASCII literal of the source, as code units.\<close>

definition lit :: "string \<Rightarrow> jsstring" where
  "lit s = map (\<lambda>c. of_nat (of_char c)) s"

text \<open>The template literal \<open>`${counter}`\<close> of a non-negative integer: its decimal digits.\<close>

fun numToString :: "nat \<Rightarrow> jsstring" where
  "numToString n =
     (if n < 10 then [of_nat (48 + n)]
      else numToString (n div 10) @ [of_nat (48 + n mod 10)])"

text \<open>
  \<open>String.prototype.trim\<close> removes WhiteSpace and LineTerminator code points
  (ECMAScript: TAB, VT, FF, SP, NBSP, ZWNBSP, the category Zs, LF, CR, LS, PS).
  \<open>s.trim() === ''\<close> holds exactly when every code unit of \<open>s\<close> is one of them.
\<close>

definition isWhiteSpace :: "jschar \<Rightarrow> bool" where
  "isWhiteSpace c =
     (c = 0x9 \<or> c = 0xA \<or> c = 0xB \<or> c = 0xC \<or> c = 0xD \<or> c = 0x20 \<or> c = 0xA0
      \<or> c = 0x1680 \<or> (0x2000 \<le> c \<and> c \<le> 0x200A) \<or> c = 0x2028 \<or> c = 0x2029
      \<or> c = 0x202F \<or> c = 0x205F \<or> c = 0x3000 \<or> c = 0xFEFF)"

definition trimIsEmpty :: "jsstring \<Rightarrow> bool" where
  "trimIsEmpty s = list_all isWhiteSpace s"

text \<open>The character class \<open>[a-zA-Z0-9]\<close>.\<close>

definition isAlnum :: "jschar \<Rightarrow> bool" where
  "isAlnum c =
     ((0x61 \<le> c \<and> c \<le> 0x7A) \<or> (0x41 \<le> c \<and> c \<le> 0x5A) \<or> (0x30 \<le> c \<and> c \<le> 0x39))"

text \<open>\<open>s.replace(/[^a-zA-Z0-9]/g, '_')\<close>: every code unit outside the class becomes \<open>_\<close>.\<close>

definition replaceNonAlnum :: "jsstring \<Rightarrow> jsstring" where
  "replaceNonAlnum s = map (\<lambda>c. if isAlnum c then c else 0x5F) s"

text \<open>\<open>s.match(/^[a-zA-Z0-9_]{1,20}$/)\<close> as a truth value.\<close>

definition matchesSlug :: "jsstring \<Rightarrow> bool" where
  "matchesSlug s =
     (1 \<le> length s \<and> length s \<le> 20 \<and> list_all (\<lambda>c. isAlnum c \<or> c = 0x5F) s)"

definition startsWith :: "jsstring \<Rightarrow> jsstring \<Rightarrow> bool" where
  "startsWith s p = (take (length p) s = p)"

definition endsWith :: "jsstring \<Rightarrow> jsstring \<Rightarrow> bool" where
  "endsWith s p = (length p \<le> length s \<and> drop (length s - length p) s = p)"

text \<open>
  \<open>f.endsWith('.cmd') ? f.substring(0, f.length - 4) : f\<close>, written twice in \<open>rename\<close>
  and once in \<open>writeFile\<close>.
\<close>

definition namePartOf :: "jsstring \<Rightarrow> jsstring" where
  "namePartOf f = (if endsWith f (lit ''.cmd'') then take (length f - 4) f else f)"

subsection \<open>UTF-8\<close>

text \<open>
  \<open>Buffer.from(s, 'utf8')\<close>: the UTF-8 encoding of a string. A surrogate pair is one
  code point of four bytes; a lone surrogate is encoded as U+FFFD (EF BF BD).
\<close>

definition isHighSurrogate :: "jschar \<Rightarrow> bool" where
  "isHighSurrogate c = (0xD800 \<le> c \<and> c \<le> 0xDBFF)"

definition isLowSurrogate :: "jschar \<Rightarrow> bool" where
  "isLowSurrogate c = (0xDC00 \<le> c \<and> c \<le> 0xDFFF)"

definition encodeCodePoint :: "nat \<Rightarrow> byte list" where
  "encodeCodePoint cp =
     (if cp < 0x80 then [of_nat cp]
      else if cp < 0x800 then [of_nat (0xC0 + cp div 64), of_nat (0x80 + cp mod 64)]
      else if cp < 0x10000 then
        [of_nat (0xE0 + cp div 4096), of_nat (0x80 + (cp div 64) mod 64),
         of_nat (0x80 + cp mod 64)]
      else
        [of_nat (0xF0 + cp div 262144), of_nat (0x80 + (cp div 4096) mod 64),
         of_nat (0x80 + (cp div 64) mod 64), of_nat (0x80 + cp mod 64)])"

fun utf8_encode :: "jsstring \<Rightarrow> byte list" where
  "utf8_encode [] = []"
| "utf8_encode [c] =
     (if isHighSurrogate c \<or> isLowSurrogate c then encodeCodePoint 0xFFFD
      else encodeCodePoint (unat c))"
| "utf8_encode (c # d # cs) =
     (if isHighSurrogate c \<and> isLowSurrogate d then
        encodeCodePoint (0x10000 + (unat c - 0xD800) * 1024 + (unat d - 0xDC00))
          @ utf8_encode cs
      else if isHighSurrogate c \<or> isLowSurrogate c then
        encodeCodePoint 0xFFFD @ utf8_encode (d # cs)
      else encodeCodePoint (unat c) @ utf8_encode (d # cs))"

text \<open>
  \<open>Buffer.from(bytes).toString('utf8')\<close>: the UTF-8 decoding, where every maximal
  ill-formed subsequence becomes one U+FFFD. \<open>decodeStart\<close> reads a lead byte;
  \<open>decodeCont needed cp lo hi\<close> reads a continuation byte in \<open>lo..hi\<close>, and on any
  other byte emits U+FFFD and reads that byte again as a lead byte.
\<close>

definition codePointToUnits :: "nat \<Rightarrow> jsstring" where
  "codePointToUnits cp =
     (if cp < 0x10000 then [of_nat cp]
      else [of_nat (0xD800 + (cp - 0x10000) div 1024),
            of_nat (0xDC00 + (cp - 0x10000) mod 1024)])"

fun decodeStart :: "byte list \<Rightarrow> nat list"
  and decodeCont :: "nat \<Rightarrow> nat \<Rightarrow> nat \<Rightarrow> nat \<Rightarrow> byte list \<Rightarrow> nat list" where
  "decodeStart [] = []"
| "decodeStart (b # bs) =
     (let n = unat b in
      if n < 0x80 then n # decodeStart bs
      else if 0xC2 \<le> n \<and> n \<le> 0xDF then decodeCont 1 (n mod 32) 0x80 0xBF bs
      else if 0xE0 \<le> n \<and> n \<le> 0xEF then
        decodeCont 2 (n mod 16) (if n = 0xE0 then 0xA0 else 0x80)
          (if n = 0xED then 0x9F else 0xBF) bs
      else if 0xF0 \<le> n \<and> n \<le> 0xF4 then
        decodeCont 3 (n mod 8) (if n = 0xF0 then 0x90 else 0x80)
          (if n = 0xF4 then 0x8F else 0xBF) bs
      else 0xFFFD # decodeStart bs)"
| "decodeCont needed cp lo hi [] = [0xFFFD]"
| "decodeCont needed cp lo hi (b # bs) =
     (let n = unat b in
      if n < lo \<or> hi < n then 0xFFFD # decodeStart (b # bs)
      else if needed \<le> 1 then (cp * 64 + n mod 64) # decodeStart bs
      else decodeCont (needed - 1) (cp * 64 + n mod 64) 0x80 0xBF bs)"

definition utf8_decode :: "byte list \<Rightarrow> jsstring" where
  "utf8_decode bs = concat (map codePointToUnits (decodeStart bs))"

section \<open>The data model\<close>

text \<open>\<open>interface CommandItem { name?: string; command: string }\<close>\<close>

record CommandItem =
  name :: "jsstring option"
  command :: jsstring

text \<open>
  \<open>Map<string, CommandItem>\<close>: a JavaScript Map keeps its entries in insertion order,
  which \<open>values()\<close> and \<open>keys()\<close> follow; \<open>set\<close> on a present key replaces the value in
  place, on an absent key appends.
\<close>

type_synonym store = "(jsstring \<times> CommandItem) list"

definition map_has :: "store \<Rightarrow> jsstring \<Rightarrow> bool" where
  "map_has m k = (k \<in> set (map fst m))"

definition map_get :: "store \<Rightarrow> jsstring \<Rightarrow> CommandItem option" where
  "map_get m k = map_of m k"

definition map_set :: "jsstring \<Rightarrow> CommandItem \<Rightarrow> store \<Rightarrow> store" where
  "map_set k v m =
     (if map_has m k then map (\<lambda>(k', v'). if k' = k then (k', v) else (k', v')) m
      else m @ [(k, v)])"

definition map_delete :: "jsstring \<Rightarrow> store \<Rightarrow> store" where
  "map_delete k m = filter (\<lambda>(k', v'). k' \<noteq> k) m"

definition map_keys :: "store \<Rightarrow> jsstring list" where
  "map_keys m = map fst m"

definition map_values :: "store \<Rightarrow> CommandItem list" where
  "map_values m = map snd m"

datatype FileChangeType = Changed | Created | Deleted

datatype FileType = File | Directory

text \<open>
  A \<open>vscode.Uri\<close> handed to the provider is read through \<open>uri.path\<close> only, so it
  is modelled by its path. The provider also builds URIs with \<open>Uri.parse\<close>;
  those are kept as the text given to \<open>Uri.parse\<close>.
\<close>

datatype Uri = UriPath jsstring | UriParse jsstring

type_synonym FileChangeEvent = "FileChangeType \<times> Uri"

datatype FileSystemError =
    FileNotFound jsstring
  | FileExists jsstring
  | FileNotADirectory jsstring
  | NoPermissions jsstring

record FileStat =
  ftype :: FileType
  ctime :: nat
  mtime :: nat
  size :: nat

text \<open>
  The provider's state: the \<open>_commands\<close> map, the \<open>customCommands\<close> slot of
  \<open>context.globalState\<close> (\<open>None\<close> while nothing was ever stored there), and the
  batches of events fired on \<open>_emitter\<close> so far, oldest first. \<open>globalState.update\<close>
  is taken to store the value and resolve; a rejected update is not modelled.
\<close>

record provider =
  commands :: store
  globalState :: "CommandItem list option"
  emitted :: "FileChangeEvent list list"

record write_options =
  create :: bool
  overwrite :: bool

section \<open>CommandFileSystemProvider\<close>

definition COMMAND_FILE_SCHEME :: jsstring where
  "COMMAND_FILE_SCHEME = lit ''commandfile''"

definition fire :: "FileChangeEvent list \<Rightarrow> provider \<Rightarrow> provider" where
  "fire evs p = p\<lparr>emitted := emitted p @ [evs]\<rparr>"

text \<open>
  \<open>item.name && item.name.trim() !== ''\<close>: the name is defined, not the empty string,
  and not made of white space only.
\<close>

definition nameIsSet :: "CommandItem \<Rightarrow> bool" where
  "nameIsSet item =
     (case name item of None \<Rightarrow> False | Some n \<Rightarrow> n \<noteq> [] \<and> \<not> trimIsEmpty n)"

text \<open>
  The expression both \<open>generateFileName\<close> and the loop of \<open>addCommandItem\<close> compute:
  the name, or the first 20 code units of the command with the replacement.
\<close>

definition baseNameOf :: "CommandItem \<Rightarrow> jsstring" where
  "baseNameOf item =
     (if nameIsSet item then the (name item) else replaceNonAlnum (take 20 (command item)))"

definition generateFileName :: "CommandItem \<Rightarrow> jsstring" where
  "generateFileName item =
     (let baseName = baseNameOf item;
          baseName = (if length baseName = 0 then lit ''untitled_command'' else baseName)
      in baseName @ lit ''.cmd'')"

definition loadCommandsFromGlobalState :: "provider \<Rightarrow> provider" where
  "loadCommandsFromGlobalState p =
     (let storedCommands = (case globalState p of None \<Rightarrow> [] | Some cs \<Rightarrow> cs)
      in p\<lparr>commands := fold (\<lambda>cmd m. map_set (generateFileName cmd) cmd m) storedCommands []\<rparr>)"

text \<open>The constructor: a new provider over the given \<open>globalState\<close> slot.\<close>

definition newProvider :: "CommandItem list option \<Rightarrow> provider" where
  "newProvider gs =
     loadCommandsFromGlobalState \<lparr>commands = [], globalState = gs, emitted = []\<rparr>"

definition saveCommandsToGlobalState :: "provider \<Rightarrow> provider" where
  "saveCommandsToGlobalState p =
     (let commandsArray = map_values (commands p);
          p = p\<lparr>globalState := Some commandsArray\<rparr>
      in fire [(Changed, UriParse (COMMAND_FILE_SCHEME @ lit '':/''))] p)"

text \<open>
  Every method below returns what the call returns, or the error it throws, together
  with the provider's state after the call. \<open>Date.now()\<close> is the argument \<open>now\<close>.
\<close>

definition stat :: "nat \<Rightarrow> jsstring \<Rightarrow> provider \<Rightarrow> (FileSystemError + FileStat) \<times> provider" where
  "stat now path p =
     (if path = lit ''/'' then
        (Inr \<lparr>ftype = Directory, ctime = now, mtime = now, size = 0\<rparr>, p)
      else
        let fileName = drop 1 path in
        case map_get (commands p) fileName of
          Some item \<Rightarrow>
            (Inr \<lparr>ftype = File, ctime = now, mtime = now,
                  size = length (utf8_encode (command item))\<rparr>, p)
        | None \<Rightarrow> (Inl (FileNotFound path), p))"

definition readDirectory ::
  "jsstring \<Rightarrow> provider \<Rightarrow> (FileSystemError + (jsstring \<times> FileType) list) \<times> provider" where
  "readDirectory path p =
     (if path = lit ''/'' then (Inr (map (\<lambda>key. (key, File)) (map_keys (commands p))), p)
      else (Inl (FileNotADirectory path), p))"

definition readFile :: "jsstring \<Rightarrow> provider \<Rightarrow> (FileSystemError + byte list) \<times> provider" where
  "readFile path p =
     (let fileName = drop 1 path in
      case map_get (commands p) fileName of
        Some item \<Rightarrow> (Inr (utf8_encode (command item)), p)
      | None \<Rightarrow> (Inl (FileNotFound path), p))"

text \<open>
  \<open>existingCommand?.name\<close> used as a condition: the name of the existing record when it
  is defined and not the empty string.
\<close>

definition truthyName :: "CommandItem option \<Rightarrow> jsstring option" where
  "truthyName existing =
     (case existing of
        None \<Rightarrow> None
      | Some e \<Rightarrow> (case name e of None \<Rightarrow> None | Some n \<Rightarrow> if n = [] then None else Some n))"

definition writeFile ::
  "jsstring \<Rightarrow> byte list \<Rightarrow> write_options \<Rightarrow> provider \<Rightarrow> (FileSystemError + unit) \<times> provider" where
  "writeFile path content options p =
     (let fileName = drop 1 path;
          newCommandContent = utf8_decode content;
          existingCommand = map_get (commands p) fileName
      in
      if \<not> create options \<and> existingCommand = None then (Inl (FileNotFound path), p)
      else if existingCommand \<noteq> None \<and> create options \<and> \<not> overwrite options then
        (Inl (FileExists path), p)
      else
        let namePart = namePartOf fileName;
            commandName =
              (if \<not> matchesSlug namePart \<and> \<not> startsWith newCommandContent namePart
               then Some namePart
               else truthyName existingCommand);
            p = p\<lparr>commands :=
                   map_set fileName \<lparr>name = commandName, command = newCommandContent\<rparr>
                     (commands p)\<rparr>;
            p = saveCommandsToGlobalState p
        in (Inr (), fire [(Changed, UriPath path)] p))"

definition delete :: "jsstring \<Rightarrow> bool \<Rightarrow> provider \<Rightarrow> (FileSystemError + unit) \<times> provider" where
  "delete path recursive p =
     (let fileName = drop 1 path in
      if map_has (commands p) fileName then
        let p = p\<lparr>commands := map_delete fileName (commands p)\<rparr>;
            p = saveCommandsToGlobalState p
        in (Inr (), fire [(Deleted, UriPath path)] p)
      else (Inl (FileNotFound path), p))"

definition rename ::
  "jsstring \<Rightarrow> jsstring \<Rightarrow> bool \<Rightarrow> provider \<Rightarrow> (FileSystemError + unit) \<times> provider" where
  "rename oldPath newPath overwriteOpt p =
     (let oldFileName = drop 1 oldPath;
          newFileName = drop 1 newPath
      in
      case map_get (commands p) oldFileName of
        None \<Rightarrow> (Inl (FileNotFound oldPath), p)
      | Some oldCommand \<Rightarrow>
          if map_has (commands p) newFileName \<and> \<not> overwriteOpt then
            (Inl (FileExists newPath), p)
          else
            let newNamePart = namePartOf newFileName;
                oldNamePart = namePartOf oldFileName;
                newCommandName =
                  (if newNamePart \<noteq> oldNamePart then
                     if \<not> matchesSlug newNamePart
                        \<and> \<not> startsWith (command oldCommand) newNamePart
                     then Some newNamePart
                     else if trimIsEmpty newNamePart then None
                     else name oldCommand
                   else name oldCommand);
                p = p\<lparr>commands := map_delete oldFileName (commands p)\<rparr>;
                p = p\<lparr>commands :=
                       map_set newFileName
                         \<lparr>name = newCommandName, command = command oldCommand\<rparr>
                         (commands p)\<rparr>;
                p = saveCommandsToGlobalState p
            in (Inr (), fire [(Deleted, UriPath oldPath), (Created, UriPath newPath)] p))"

definition createDirectory :: "jsstring \<Rightarrow> provider \<Rightarrow> (FileSystemError + unit) \<times> provider" where
  "createDirectory path p = (Inl (NoPermissions (lit ''Directories not supported'')), p)"

text \<open>
  The \<open>while\<close> loop of \<open>addCommandItem\<close>, from the state \<open>(uniqueFileName, counter)\<close>.
  \<open>candidate item n\<close> is the name the loop body builds when \<open>counter\<close> is \<open>n\<close>.
\<close>

definition candidate :: "CommandItem \<Rightarrow> nat \<Rightarrow> jsstring" where
  "candidate item counter =
     baseNameOf item @ lit ''-'' @ numToString counter @ lit ''.cmd''"

function uniqueLoop :: "store \<Rightarrow> CommandItem \<Rightarrow> jsstring \<Rightarrow> nat \<Rightarrow> jsstring" where
  "uniqueLoop m item uniqueFileName counter =
     (if map_has m uniqueFileName then uniqueLoop m item (candidate item counter) (counter + 1)
      else uniqueFileName)"
  by pat_completeness auto

definition addCommandItem :: "CommandItem \<Rightarrow> provider \<Rightarrow> (FileSystemError + unit) \<times> provider" where
  "addCommandItem item p =
     (let fileName = generateFileName item;
          uniqueFileName = uniqueLoop (commands p) item fileName 1;
          p = p\<lparr>commands := map_set uniqueFileName item (commands p)\<rparr>;
          p = saveCommandsToGlobalState p
      in (Inr (),
          fire [(Created, UriParse (COMMAND_FILE_SCHEME @ lit '':/'' @ uniqueFileName))] p))"

definition getAllCommandItems :: "provider \<Rightarrow> CommandItem list" where
  "getAllCommandItems p = map_values (commands p)"

section \<open>CommandsProvider.importCommands\<close>

text \<open>
  The part of \<open>importCommands\<close> after the file was read, parsed and validated: the
  argument is the parsed array. The result is the message shown.
\<close>

datatype import_message = NoCommandsFound | Imported nat | NoNewCommands

definition isDuplicate :: "CommandItem list \<Rightarrow> CommandItem \<Rightarrow> bool" where
  "isDuplicate currentCommands importedCmd =
     list_ex (\<lambda>existingCmd. name existingCmd = name importedCmd
                \<and> command existingCmd = command importedCmd) currentCommands"

text \<open>\<open>for (const cmd of newCommands) { await addCommandItem(cmd); }\<close>\<close>

fun addAll :: "CommandItem list \<Rightarrow> provider \<Rightarrow> provider" where
  "addAll [] p = p"
| "addAll (cmd # cmds) p = addAll cmds (snd (addCommandItem cmd p))"

definition importCommands :: "CommandItem list \<Rightarrow> provider \<Rightarrow> import_message \<times> provider" where
  "importCommands importedCommands p =
     (if length importedCommands = 0 then (NoCommandsFound, p)
      else
        let currentCommands = getAllCommandItems p;
            newCommands = filter (\<lambda>c. \<not> isDuplicate currentCommands c) importedCommands;
            commandsAdded = length newCommands
        in if length newCommands > 0 then (Imported commandsAdded, addAll newCommands p)
           else (NoNewCommands, p))"

section \<open>The key of a record, in the words of the specification\<close>

text \<open>
  The specification's \<open>keyFor\<close>: \<open><base>.cmd\<close>, where the base is the name verbatim
  if it is present and non-blank, else the first 20 characters of the command with
  every character outside \<open>[A-Za-z0-9]\<close> replaced by \<open>_\<close>, and \<open>untitled_command\<close> if
  that is empty. This definition follows the specification, not the source; it is
  compared with \<open>generateFileName\<close> below.
\<close>

definition keyFor_spec :: "CommandItem \<Rightarrow> jsstring" where
  "keyFor_spec item =
     (let derived = map (\<lambda>c. if c \<in> {0x41..0x5A} \<union> {0x61..0x7A} \<union> {0x30..0x39} then c else 0x5F)
                      (take 20 (command item));
          fallback = (if derived = [] then lit ''untitled_command'' else derived);
          base = (case name item of
                    None \<Rightarrow> fallback
                  | Some n \<Rightarrow> if filter (\<lambda>c. \<not> isWhiteSpace c) n \<noteq> [] then n else fallback)
      in base @ lit ''.cmd'')"

section \<open>The loop of \<open>addCommandItem\<close> terminates\<close>

text \<open>
  The candidates \<open>base-1.cmd\<close>, \<open>base-2.cmd\<close>, ... are pairwise different and the map is
  finite, so the loop meets a free name.
\<close>

declare numToString.simps [simp del]

lemma digit_inj: "a < 10 \<Longrightarrow> b < 10 \<Longrightarrow> (of_nat (48 + a) :: jschar) = of_nat (48 + b) \<Longrightarrow> a = b"
proof -
  assume a: "a < 10" and b: "b < 10" and e: "(of_nat (48 + a) :: jschar) = of_nat (48 + b)"
  from e have "unat (of_nat (48 + a) :: jschar) = unat (of_nat (48 + b) :: jschar)"
    by (simp only:)
  with a b show "a = b" by (simp add: unat_of_nat del: of_nat_add)
qed

lemma numToString_nonempty: "numToString n \<noteq> []"
  by (subst numToString.simps) simp

lemma numToString_inj: "numToString a = numToString b \<Longrightarrow> a = b"
proof (induction a arbitrary: b rule: numToString.induct)
  case (1 n)
  show ?case
  proof (cases "n < 10")
    case True
    note n = this
    show ?thesis
    proof (cases "b < 10")
      case True
      with n "1.prems" show ?thesis
        by (subst (asm) numToString.simps, subst (asm) (2) numToString.simps) (auto dest: digit_inj)
    next
      case False
      with n "1.prems" have "[of_nat (48 + n) :: jschar] = numToString (b div 10) @ [of_nat (48 + b mod 10)]"
        by (subst (asm) numToString.simps, subst (asm) (2) numToString.simps) simp
      then have "numToString (b div 10) = []" by simp
      then show ?thesis by (simp add: numToString_nonempty)
    qed
  next
    case False
    note n = this
    show ?thesis
    proof (cases "b < 10")
      case True
      with n "1.prems" have "numToString (n div 10) @ [of_nat (48 + n mod 10)] = [of_nat (48 + b) :: jschar]"
        by (subst (asm) numToString.simps, subst (asm) (2) numToString.simps) simp
      then have "numToString (n div 10) = []" by simp
      then show ?thesis by (simp add: numToString_nonempty)
    next
      case False
      with n "1.prems" have e: "numToString (n div 10) @ [of_nat (48 + n mod 10)] = numToString (b div 10) @ [of_nat (48 + b mod 10) :: jschar]"
        by (subst (asm) numToString.simps, subst (asm) (2) numToString.simps) simp
      then have "numToString (n div 10) = numToString (b div 10)" by simp
      with "1.IH" n have d: "n div 10 = b div 10" by blast
      from e have "(of_nat (48 + n mod 10) :: jschar) = of_nat (48 + b mod 10)" by simp
      then have m: "n mod 10 = b mod 10" by (intro digit_inj) auto
      from d m show ?thesis by (metis div_mult_mod_eq)
    qed
  qed
qed

lemma candidate_inj: "candidate item a = candidate item b \<Longrightarrow> a = b"
  by (simp add: candidate_def numToString_inj)

lemma inj_candidate: "inj (candidate item)"
  by (rule injI) (rule candidate_inj)

lemma finite_taken: "finite {k. map_has m (candidate item k)}"
proof -
  have "{k. map_has m (candidate item k)} = candidate item -` set (map fst m)"
    by (auto simp: map_has_def)
  then show ?thesis by (simp add: finite_vimageI inj_candidate del: set_map)
qed

termination uniqueLoop
proof (relation "measure (\<lambda>(m, item, u, c).
     2 * card {k. c \<le> k \<and> map_has m (candidate item k)} + (if map_has m u then 1 else 0))")
  show "wf (measure (\<lambda>(m, item, u, c).
     2 * card {k. c \<le> k \<and> map_has m (candidate item k)} + (if map_has m u then 1 else (0::nat))))"
    by simp
next
  fix m item u c
  assume h: "map_has m u"
  let ?A = "{k. c \<le> k \<and> map_has m (candidate item k)}"
  let ?B = "{k. c + 1 \<le> k \<and> map_has m (candidate item k)}"
  have fin: "finite ?A" by (rule finite_subset [OF _ finite_taken [of m item]]) auto
  show "((m, item, candidate item c, c + 1), (m, item, u, c)) \<in> measure (\<lambda>(m, item, u, c).
     2 * card {k. c \<le> k \<and> map_has m (candidate item k)} + (if map_has m u then 1 else 0))"
  proof (cases "map_has m (candidate item c)")
    case True
    have "?A = insert c ?B" using True by (auto simp: le_Suc_eq)
    moreover have "c \<notin> ?B" by simp
    moreover have "finite ?B" by (rule finite_subset [OF _ fin]) auto
    ultimately have "card ?A = Suc (card ?B)" by simp
    then show ?thesis using h True by simp
  next
    case False
    have "?A = ?B" using False by (auto simp: le_Suc_eq) (metis Suc_leI le_neq_implies_less)
    then show ?thesis using h False by simp
  qed
qed

declare uniqueLoop.simps [simp del]

lemma uniqueLoop_free: "\<not> map_has m (uniqueLoop m item u c)"
proof (induction m item u c rule: uniqueLoop.induct)
  case (1 m item u c)
  then show ?case by (subst uniqueLoop.simps) simp
qed

lemma uniqueLoop_first_free:
  "map_has m u \<Longrightarrow>
   \<exists>n\<ge>c. uniqueLoop m item u c = candidate item n
        \<and> (\<forall>k. c \<le> k \<and> k < n \<longrightarrow> map_has m (candidate item k))"
proof (induction m item u c rule: uniqueLoop.induct)
  case (1 m item u c)
  note has = \<open>map_has m u\<close>
  have step: "uniqueLoop m item u c = uniqueLoop m item (candidate item c) (c + 1)"
    using has by (subst uniqueLoop.simps) simp
  show ?case
  proof (cases "map_has m (candidate item c)")
    case False
    then have "uniqueLoop m item (candidate item c) (c + 1) = candidate item c"
      by (subst uniqueLoop.simps) simp
    with step show ?thesis by auto
  next
    case True
    from "1.IH" [OF has True] obtain n where n: "c + 1 \<le> n"
      "uniqueLoop m item (candidate item c) (c + 1) = candidate item n"
      "\<forall>k. c + 1 \<le> k \<and> k < n \<longrightarrow> map_has m (candidate item k)"
      by blast
    have "\<forall>k. c \<le> k \<and> k < n \<longrightarrow> map_has m (candidate item k)"
    proof (intro allI impI)
      fix k assume k: "c \<le> k \<and> k < n"
      show "map_has m (candidate item k)"
      proof (cases "k = c")
        case True with \<open>map_has m (candidate item c)\<close> show ?thesis by simp
      next
        case False with k n(3) show ?thesis by simp
      qed
    qed
    with n step show ?thesis by (intro exI [of _ n]) simp
  qed
qed

lemma uniqueLoop_unused: "\<not> map_has m u \<Longrightarrow> uniqueLoop m item u c = u"
  by (subst uniqueLoop.simps) simp

lemma map_set_fresh: "\<not> map_has m k \<Longrightarrow> map_set k v m = m @ [(k, v)]"
  by (simp add: map_set_def)

lemma map_keys_map_set:
  "map_keys (map_set k v m) = (if map_has m k then map_keys m else map_keys m @ [k])"
  by (induction m) (auto simp: map_set_def map_keys_def map_has_def)

lemma commands_save [simp]: "commands (saveCommandsToGlobalState p) = commands p"
  by (simp add: saveCommandsToGlobalState_def fire_def Let_def)

lemma commands_fire [simp]: "commands (fire evs p) = commands p"
  by (simp add: fire_def)

lemma commands_addCommandItem:
  "commands (snd (addCommandItem item p)) =
     commands p @ [(uniqueLoop (commands p) item (generateFileName item) 1, item)]"
  by (simp add: addCommandItem_def Let_def map_set_fresh uniqueLoop_free)

lemma commands_addAll:
  "\<exists>ks. length ks = length items \<and> commands (addAll items p) = commands p @ zip ks items
        \<and> distinct ks \<and> (\<forall>k \<in> set ks. \<not> map_has (commands p) k)"
proof (induction items arbitrary: p)
  case Nil
  then show ?case by simp
next
  case (Cons item items)
  let ?k = "uniqueLoop (commands p) item (generateFileName item) 1"
  let ?p = "snd (addCommandItem item p)"
  from Cons.IH [of ?p] obtain ks where ks: "length ks = length items"
    "commands (addAll items ?p) = commands ?p @ zip ks items" "distinct ks"
    "\<forall>k \<in> set ks. \<not> map_has (commands ?p) k"
    by blast
  have "addAll (item # items) p = addAll items ?p" by simp
  moreover have "?k \<notin> set ks" using ks(4) by (auto simp: commands_addCommandItem map_has_def)
  moreover have "\<forall>k \<in> set ks. \<not> map_has (commands p) k"
    using ks(4) by (auto simp: commands_addCommandItem map_has_def)
  ultimately show ?case using ks uniqueLoop_free [of "commands p" item "generateFileName item" 1]
    by (intro exI [of _ "?k # ks"]) (simp add: commands_addCommandItem)
qed

section \<open>Evaluating the model on concrete inputs\<close>

lemmas eval_simps =
  lit_def generateFileName_def baseNameOf_def nameIsSet_def trimIsEmpty_def isWhiteSpace_def
  replaceNonAlnum_def isAlnum_def candidate_def numToString.simps map_has_def map_set_def
  map_get_def map_keys_def map_values_def map_delete_def
  uniqueLoop.simps Let_def

lemmas state_simps =
  addCommandItem_def saveCommandsToGlobalState_def fire_def COMMAND_FILE_SCHEME_def

section \<open>Key generation\<close>

lemma blank_iff: "filter (\<lambda>c. \<not> isWhiteSpace c) n \<noteq> [] \<longleftrightarrow> n \<noteq> [] \<and> \<not> trimIsEmpty n"
  by (induction n) (auto simp: trimIsEmpty_def)

text \<open>
  Claim C4. \<open>generateFileName\<close> is a function of the record alone, and for every record
  it returns the key the specification describes: \<open><base>.cmd\<close> with the name verbatim
  when it is present and non-blank, otherwise the first 20 code units of the command
  with everything outside \<open>[A-Za-z0-9]\<close> replaced by \<open>_\<close>, and \<open>untitled_command\<close> when
  that is empty. For the record without a name and with command \<open>git status\<close> the key is
  \<open>git_status.cmd\<close>.
\<close>

theorem generateFileName_spec:
  "generateFileName item = keyFor_spec item
   \<and> generateFileName \<lparr>name = None, command = lit ''git status''\<rparr> = lit ''git_status.cmd''"
proof
  have cls: "\<And>c::jschar. (c \<in> {0x41..0x5A} \<union> {0x61..0x7A} \<union> {0x30..0x39}) = isAlnum c"
    by (auto simp: isAlnum_def)
  show "generateFileName item = keyFor_spec item"
    unfolding generateFileName_def keyFor_spec_def baseNameOf_def nameIsSet_def
      replaceNonAlnum_def cls blank_iff Let_def
    by (cases "name item") (auto simp: min_def split: if_splits)
  show "generateFileName \<lparr>name = None, command = lit ''git status''\<rparr> = lit ''git_status.cmd''"
    by (simp add: eval_simps)
qed

theorem generateFileName_spec_witness:
  "keyFor_spec \<lparr>name = Some (lit ''  ''), command = []\<rparr> = lit ''untitled_command.cmd''"
proof -
  have "generateFileName \<lparr>name = Some (lit ''  ''), command = []\<rparr>
          = lit ''untitled_command.cmd''"
    by (simp add: eval_simps)
  with generateFileName_spec [of "\<lparr>name = Some (lit ''  ''), command = []\<rparr>"]
  show ?thesis by simp
qed

section \<open>Adding records\<close>

text \<open>
  From a map with pairwise distinct keys, any sequence of \<open>addCommandItem\<close> calls
  leaves the keys pairwise distinct, and every call adds one entry (none is
  overwritten). One call inserts the record under a key that was free: the generated
  file name if that is free, and otherwise the loop's name \<open>b-n.cmd\<close> for the first
  \<open>n = 1, 2, ...\<close> that is free, where \<open>b\<close> is the expression the loop recomputes
  (\<open>baseNameOf\<close>: the name, or the slug of the command, with no fallback).
\<close>

lemma addCommandItem_keys_unique:
  assumes "distinct (map_keys (commands p))"
  shows "distinct (map_keys (commands (addAll items p)))
     \<and> length (commands (addAll items p)) = length (commands p) + length items
     \<and> (\<exists>key. commands (snd (addCommandItem item p)) = commands p @ [(key, item)]
          \<and> \<not> map_has (commands p) key
          \<and> (if \<not> map_has (commands p) (generateFileName item) then key = generateFileName item
             else \<exists>n\<ge>1. key = baseNameOf item @ lit ''-'' @ numToString n @ lit ''.cmd''
                    \<and> (\<forall>k. 1 \<le> k \<and> k < n \<longrightarrow>
                          map_has (commands p)
                            (baseNameOf item @ lit ''-'' @ numToString k @ lit ''.cmd''))))"
proof (intro conjI)
  from commands_addAll [of items p] obtain ks where ks: "length ks = length items"
    "commands (addAll items p) = commands p @ zip ks items" "distinct ks"
    "\<forall>k \<in> set ks. \<not> map_has (commands p) k"
    by blast
  from ks assms show "distinct (map_keys (commands (addAll items p)))"
    by (auto simp: map_keys_def map_has_def)
  from ks show "length (commands (addAll items p)) = length (commands p) + length items"
    by simp
  let ?key = "uniqueLoop (commands p) item (generateFileName item) 1"
  have "if \<not> map_has (commands p) (generateFileName item) then ?key = generateFileName item
        else \<exists>n\<ge>1. ?key = candidate item n
               \<and> (\<forall>k. 1 \<le> k \<and> k < n \<longrightarrow> map_has (commands p) (candidate item k))"
    using uniqueLoop_first_free [of "commands p" "generateFileName item" 1 item]
    by (simp add: uniqueLoop_unused)
  then have "if \<not> map_has (commands p) (generateFileName item) then ?key = generateFileName item
        else \<exists>n\<ge>1. ?key = baseNameOf item @ lit ''-'' @ numToString n @ lit ''.cmd''
                    \<and> (\<forall>k. 1 \<le> k \<and> k < n \<longrightarrow>
                          map_has (commands p)
                            (baseNameOf item @ lit ''-'' @ numToString k @ lit ''.cmd''))"
    unfolding candidate_def .
  moreover have "commands (snd (addCommandItem item p)) = commands p @ [(?key, item)]"
    by (rule commands_addCommandItem)
  moreover have "\<not> map_has (commands p) ?key" by (rule uniqueLoop_free)
  ultimately show "\<exists>key. commands (snd (addCommandItem item p)) = commands p @ [(key, item)]
          \<and> \<not> map_has (commands p) key
          \<and> (if \<not> map_has (commands p) (generateFileName item) then key = generateFileName item
             else \<exists>n\<ge>1. key = baseNameOf item @ lit ''-'' @ numToString n @ lit ''.cmd''
                    \<and> (\<forall>k. 1 \<le> k \<and> k < n \<longrightarrow>
                          map_has (commands p)
                            (baseNameOf item @ lit ''-'' @ numToString k @ lit ''.cmd'')))"
    by blast
qed


lemma addCommandItem_keys_unique_example:
  "distinct (map_keys (commands
      \<lparr>commands = [(lit ''Build.cmd'', \<lparr>name = Some (lit ''Build''), command = lit ''npm run build''\<rparr>)],
       globalState = None, emitted = []\<rparr>))
   \<and> distinct (map_keys (commands (addAll
        [\<lparr>name = Some (lit ''Build''), command = lit ''make''\<rparr>,
         \<lparr>name = Some (lit ''Build''), command = lit ''make''\<rparr>]
        \<lparr>commands = [(lit ''Build.cmd'', \<lparr>name = Some (lit ''Build''), command = lit ''npm run build''\<rparr>)],
         globalState = None, emitted = []\<rparr>)))
   \<and> map_keys (commands (addAll
        [\<lparr>name = Some (lit ''Build''), command = lit ''make''\<rparr>,
         \<lparr>name = Some (lit ''Build''), command = lit ''make''\<rparr>]
        \<lparr>commands = [(lit ''Build.cmd'', \<lparr>name = Some (lit ''Build''), command = lit ''npm run build''\<rparr>)],
         globalState = None, emitted = []\<rparr>))
     = [lit ''Build.cmd'', lit ''Build-1.cmd'', lit ''Build-2.cmd'']"
proof -
  let ?p = "\<lparr>commands = [(lit ''Build.cmd'', \<lparr>name = Some (lit ''Build''), command = lit ''npm run build''\<rparr>)],
       globalState = None, emitted = []\<rparr>"
  have h: "distinct (map_keys (commands ?p))" by (simp add: map_keys_def)
  have k: "map_keys (commands (addAll
        [\<lparr>name = Some (lit ''Build''), command = lit ''make''\<rparr>,
         \<lparr>name = Some (lit ''Build''), command = lit ''make''\<rparr>] ?p))
     = [lit ''Build.cmd'', lit ''Build-1.cmd'', lit ''Build-2.cmd'']"
    by (simp add: eval_simps state_simps)
  from h k addCommandItem_keys_unique [OF h] show ?thesis by blast
qed

text \<open>
  Where the loop's base is not empty it is the base of the generated file name, so
  the suffixed names are \<open><base>-1.cmd\<close>, \<open><base>-2.cmd\<close>, ... over the same base.
\<close>

lemma generateFileName_nonempty_base:
  "baseNameOf item \<noteq> [] \<Longrightarrow> generateFileName item = baseNameOf item @ lit ''.cmd''"
  by (simp add: generateFileName_def Let_def)

text \<open>
  Claim C3. On a collision the inserted key is the base of the record's key with the
  suffix \<open>-1\<close>, \<open>-2\<close>, ... The loop of \<open>addCommandItem\<close> recomputes the base without
  the \<open>untitled_command\<close> fallback that \<open>generateFileName\<close> applies, so for a record
  without a name and with an empty command the two differ: added three times to a new
  provider, the record gets the keys \<open>untitled_command.cmd\<close>, \<open>-1.cmd\<close> and \<open>-2.cmd\<close>,
  not \<open>untitled_command-1.cmd\<close> and \<open>untitled_command-2.cmd\<close>.
\<close>

theorem addCommandItem_empty_base_suffix:
  "generateFileName \<lparr>name = None, command = []\<rparr> = lit ''untitled_command.cmd''
   \<and> map_keys (commands (addAll
        [\<lparr>name = None, command = []\<rparr>, \<lparr>name = None, command = []\<rparr>,
         \<lparr>name = None, command = []\<rparr>] (newProvider None)))
     = [lit ''untitled_command.cmd'', lit ''-1.cmd'', lit ''-2.cmd'']
   \<and> lit ''-1.cmd'' \<noteq> lit ''untitled_command-1.cmd''"
  by (simp add: eval_simps state_simps newProvider_def loadCommandsFromGlobalState_def)

section \<open>The map operations\<close>

lemma map_has_get: "map_has m k \<longleftrightarrow> map_get m k \<noteq> None"
  by (simp add: map_has_def map_get_def map_of_eq_None_iff)

lemma map_of_replace_other:
  "k' \<noteq> k \<Longrightarrow>
   map_of (map (\<lambda>(k', v'). if k' = k then (k', v) else (k', v')) m) k' = map_of m k'"
  by (induction m) (simp_all split: prod.splits)

lemma map_of_replace_same:
  "map_of m k \<noteq> None \<Longrightarrow>
   map_of (map (\<lambda>(k', v'). if k' = k then (k', v) else (k', v')) m) k = Some v"
proof (induction m)
  case Nil
  then show ?case by simp
next
  case (Cons x m)
  obtain a b where x: "x = (a, b)" by (cases x)
  show ?case
  proof (cases "a = k")
    case True
    with x show ?thesis by simp
  next
    case False
    with Cons.prems x have "map_of m k \<noteq> None" by simp
    with Cons.IH False x show ?thesis by simp
  qed
qed

lemma map_get_map_set: "map_get (map_set k v m) k' = (if k' = k then Some v else map_get m k')"
proof (cases "map_has m k")
  case False
  then have "map_of m k = None" by (simp add: map_has_def map_of_eq_None_iff)
  with False show ?thesis
    by (simp add: map_set_def map_get_def map_add_def split: option.splits)
next
  case True
  then have "map_of m k \<noteq> None" by (simp add: map_has_def map_of_eq_None_iff)
  with True show ?thesis
    by (simp add: map_set_def map_get_def map_of_replace_other map_of_replace_same)
qed

lemma map_get_map_delete:
  "map_get (map_delete k m) k' = (if k' = k then None else map_get m k')"
  by (induction m) (auto simp: map_delete_def map_get_def)

lemma map_has_map_set: "map_has (map_set k v m) k' \<longleftrightarrow> k' = k \<or> map_has m k'"
  by (simp add: map_has_get map_get_map_set)

lemmas fs_simps =
  writeFile_def rename_def delete_def readFile_def stat_def readDirectory_def
  namePartOf_def endsWith_def startsWith_def matchesSlug_def truthyName_def
  utf8_decode_def codePointToUnits_def encodeCodePoint_def isHighSurrogate_def isLowSurrogate_def
  newProvider_def loadCommandsFromGlobalState_def getAllCommandItems_def

section \<open>A name collision\<close>

text \<open>
  Claim C2, as the code has it. Keys are compared as strings, so \<open>build.cmd\<close> does not
  collide with \<open>Build.cmd\<close>. When the map has the key \<open>Build.cmd\<close> and not the key
  \<open>Build-1.cmd\<close>, \<open>addCommandItem\<close> of the record with name \<open>Build\<close> and command
  \<open>npm run build\<close> appends it under the key \<open>Build-1.cmd\<close>.
\<close>

theorem addCommandItem_Build_collision:
  assumes "map_has (commands p) (lit ''Build.cmd'')"
    and "\<not> map_has (commands p) (lit ''Build-1.cmd'')"
  shows "commands (snd (addCommandItem \<lparr>name = Some (lit ''Build''), command = lit ''npm run build''\<rparr> p))
     = commands p @ [(lit ''Build-1.cmd'', \<lparr>name = Some (lit ''Build''), command = lit ''npm run build''\<rparr>)]"
proof -
  let ?B = "\<lparr>name = Some (lit ''Build''), command = lit ''npm run build''\<rparr>"
  have g: "generateFileName ?B = lit ''Build.cmd''" by (simp add: eval_simps)
  have c: "candidate ?B 1 = lit ''Build-1.cmd''" by (simp add: eval_simps)
  have "uniqueLoop (commands p) ?B (lit ''Build.cmd'') 1
          = uniqueLoop (commands p) ?B (lit ''Build-1.cmd'') (1 + 1)"
    using assms(1) c by (subst uniqueLoop.simps) simp
  also have "\<dots> = lit ''Build-1.cmd''"
    using assms(2) by (subst uniqueLoop.simps) simp
  finally show ?thesis by (simp add: commands_addCommandItem g)
qed

theorem addCommandItem_Build_collision_witness:
  "map_keys (commands (snd (addCommandItem \<lparr>name = Some (lit ''Build''), command = lit ''npm run build''\<rparr>
      \<lparr>commands = [(lit ''Build.cmd'', \<lparr>name = Some (lit ''Build''), command = lit ''make''\<rparr>)],
       globalState = None, emitted = []\<rparr>)))
   = [lit ''Build.cmd'', lit ''Build-1.cmd'']"
proof -
  let ?p = "\<lparr>commands = [(lit ''Build.cmd'', \<lparr>name = Some (lit ''Build''), command = lit ''make''\<rparr>)],
       globalState = None, emitted = []\<rparr>"
  have h1: "map_has (commands ?p) (lit ''Build.cmd'')" by (simp add: map_has_def)
  have h2: "\<not> map_has (commands ?p) (lit ''Build-1.cmd'')" by (simp add: map_has_def lit_def)
  from addCommandItem_Build_collision [OF h1 h2] show ?thesis by (simp add: map_keys_def)
qed

text \<open>
  With the key \<open>build.cmd\<close> (a record named \<open>Build\<close>) as the only entry, the same call
  stores the record under \<open>Build.cmd\<close>: there is no collision and no suffix.
\<close>

theorem addCommandItem_build_lowercase_counterexample:
  "map_get [(lit ''build.cmd'', \<lparr>name = Some (lit ''Build''), command = lit ''make''\<rparr>)] (lit ''build.cmd'')
     = Some \<lparr>name = Some (lit ''Build''), command = lit ''make''\<rparr>
   \<and> commands (snd (addCommandItem \<lparr>name = Some (lit ''Build''), command = lit ''npm run build''\<rparr>
      \<lparr>commands = [(lit ''build.cmd'', \<lparr>name = Some (lit ''Build''), command = lit ''make''\<rparr>)],
       globalState = None, emitted = []\<rparr>))
     = [(lit ''build.cmd'', \<lparr>name = Some (lit ''Build''), command = lit ''make''\<rparr>),
        (lit ''Build.cmd'', \<lparr>name = Some (lit ''Build''), command = lit ''npm run build''\<rparr>)]
   \<and> lit ''Build.cmd'' \<noteq> lit ''Build-1.cmd''"
  by (simp add: eval_simps state_simps)

section \<open>writeFile\<close>

text \<open>
  Claim C5. For every path, content and options, \<open>writeFile\<close> throws \<open>FileNotFound\<close>
  exactly when the path's key is absent and \<open>create\<close> is false, throws \<open>FileExists\<close>
  exactly when the key is present, \<open>create\<close> is true and \<open>overwrite\<close> is false, and in
  every other case returns, with a record at that key whose command is the UTF-8
  decoding of the content, every other key being left as it was.
\<close>

theorem writeFile_outcome:
  "(fst (writeFile path content options p) = Inl (FileNotFound path)
      \<longleftrightarrow> \<not> map_has (commands p) (drop 1 path) \<and> \<not> create options)
   \<and> (fst (writeFile path content options p) = Inl (FileExists path)
      \<longleftrightarrow> map_has (commands p) (drop 1 path) \<and> create options \<and> \<not> overwrite options)
   \<and> (\<not> (\<not> map_has (commands p) (drop 1 path) \<and> \<not> create options)
      \<and> \<not> (map_has (commands p) (drop 1 path) \<and> create options \<and> \<not> overwrite options)
      \<longrightarrow> fst (writeFile path content options p) = Inr ()
          \<and> (\<exists>nm. map_get (commands (snd (writeFile path content options p))) (drop 1 path)
                    = Some \<lparr>name = nm, command = utf8_decode content\<rparr>)
          \<and> (\<forall>k. k \<noteq> drop 1 path \<longrightarrow>
                map_get (commands (snd (writeFile path content options p))) k
                  = map_get (commands p) k))"
  by (auto simp: writeFile_def Let_def map_has_get map_get_map_set)

theorem writeFile_outcome_witness:
  "fst (writeFile (lit ''/a.cmd'') [0x6C, 0x73] \<lparr>create = True, overwrite = False\<rparr> (newProvider None)) = Inr ()
   \<and> fst (writeFile (lit ''/a.cmd'') [0x6C, 0x73] \<lparr>create = False, overwrite = True\<rparr> (newProvider None))
       = Inl (FileNotFound (lit ''/a.cmd''))
   \<and> fst (writeFile (lit ''/a.cmd'') [0x6C, 0x73] \<lparr>create = True, overwrite = False\<rparr>
        (snd (writeFile (lit ''/a.cmd'') [0x6C, 0x73] \<lparr>create = True, overwrite = False\<rparr> (newProvider None))))
       = Inl (FileExists (lit ''/a.cmd''))"
proof -
  let ?w = "writeFile (lit ''/a.cmd'') [0x6C, 0x73] \<lparr>create = True, overwrite = False\<rparr>"
  have e: "\<not> map_has (commands (newProvider None)) (drop 1 (lit ''/a.cmd''))"
    by (simp add: newProvider_def loadCommandsFromGlobalState_def map_has_def)
  have one: "fst (?w (newProvider None)) = Inr ()"
    using writeFile_outcome [of "lit ''/a.cmd''" "[0x6C, 0x73]" "\<lparr>create = True, overwrite = False\<rparr>" "newProvider None"] e
    by simp
  have two: "fst (writeFile (lit ''/a.cmd'') [0x6C, 0x73] \<lparr>create = False, overwrite = True\<rparr> (newProvider None))
       = Inl (FileNotFound (lit ''/a.cmd''))"
    using writeFile_outcome [of "lit ''/a.cmd''" "[0x6C, 0x73]" "\<lparr>create = False, overwrite = True\<rparr>" "newProvider None"] e
    by simp
  have "map_has (commands (snd (?w (newProvider None)))) (drop 1 (lit ''/a.cmd''))"
    using writeFile_outcome [of "lit ''/a.cmd''" "[0x6C, 0x73]" "\<lparr>create = True, overwrite = False\<rparr>" "newProvider None"] e
    by (auto simp: map_has_get)
  then have three: "fst (?w (snd (?w (newProvider None)))) = Inl (FileExists (lit ''/a.cmd''))"
    using writeFile_outcome [of "lit ''/a.cmd''" "[0x6C, 0x73]" "\<lparr>create = True, overwrite = False\<rparr>"
        "snd (?w (newProvider None))"]
    by simp
  from one two three show ?thesis by blast
qed

text \<open>
  Claim C7, as the code has it. When \<open>writeFile\<close> returns, the record stored at the
  key \<open><base>.cmd\<close> has the name \<open><base>\<close> when \<open><base>\<close> does not match
  \<open>/^[a-zA-Z0-9_]{1,20}$/\<close> and the new command does not start with \<open><base>\<close>;
  otherwise it has the name of the record that was at the key when that name is a
  non-empty string, and no name when there was no record or its name was absent or
  the empty string.
\<close>

theorem writeFile_name:
  assumes "fst (writeFile path content options p) = Inr ()"
  shows "map_get (commands (snd (writeFile path content options p))) (drop 1 path)
     = Some \<lparr>name =
               (if \<not> matchesSlug (namePartOf (drop 1 path))
                   \<and> \<not> startsWith (utf8_decode content) (namePartOf (drop 1 path))
                then Some (namePartOf (drop 1 path))
                else case map_get (commands p) (drop 1 path) of
                       None \<Rightarrow> None
                     | Some e \<Rightarrow>
                         (case name e of None \<Rightarrow> None
                          | Some n \<Rightarrow> if n = [] then None else Some n)),
             command = utf8_decode content\<rparr>"
  using assms
  by (auto simp: writeFile_def Let_def map_get_map_set truthyName_def split: if_splits option.splits)

text \<open>
  The scenario of claim C7: on a new provider over an empty \<open>globalState\<close>, writing
  \<open>echo hi\<close> to \<open>/My Task.cmd\<close> with \<open>create\<close> and without \<open>overwrite\<close> stores the record
  with name \<open>My Task\<close> and command \<open>echo hi\<close>.
\<close>

theorem writeFile_name_witness:
  "writeFile (lit ''/My Task.cmd'') [0x65, 0x63, 0x68, 0x6F, 0x20, 0x68, 0x69]
       \<lparr>create = True, overwrite = False\<rparr> (newProvider None)
     = (Inr (),
        \<lparr>commands = [(lit ''My Task.cmd'', \<lparr>name = Some (lit ''My Task''), command = lit ''echo hi''\<rparr>)],
         globalState = Some [\<lparr>name = Some (lit ''My Task''), command = lit ''echo hi''\<rparr>],
         emitted = [[(Changed, UriParse (lit ''commandfile:/''))],
                    [(Changed, UriPath (lit ''/My Task.cmd''))]]\<rparr>)
   \<and> map_get (commands (snd (writeFile (lit ''/My Task.cmd'') [0x65, 0x63, 0x68, 0x6F, 0x20, 0x68, 0x69]
       \<lparr>create = True, overwrite = False\<rparr> (newProvider None)))) (lit ''My Task.cmd'')
     = Some \<lparr>name = Some (lit ''My Task''), command = lit ''echo hi''\<rparr>"
proof -
  let ?w = "writeFile (lit ''/My Task.cmd'') [0x65, 0x63, 0x68, 0x6F, 0x20, 0x68, 0x69]
       \<lparr>create = True, overwrite = False\<rparr> (newProvider None)"
  have run: "?w = (Inr (),
        \<lparr>commands = [(lit ''My Task.cmd'', \<lparr>name = Some (lit ''My Task''), command = lit ''echo hi''\<rparr>)],
         globalState = Some [\<lparr>name = Some (lit ''My Task''), command = lit ''echo hi''\<rparr>],
         emitted = [[(Changed, UriParse (lit ''commandfile:/''))],
                    [(Changed, UriPath (lit ''/My Task.cmd''))]]\<rparr>)"
    by (simp add: eval_simps state_simps fs_simps)
  then have ok: "fst ?w = Inr ()" by simp
  have "map_get (commands (snd ?w)) (drop 1 (lit ''/My Task.cmd''))
     = Some \<lparr>name = Some (lit ''My Task''), command = lit ''echo hi''\<rparr>"
    by (subst writeFile_name [OF ok]) (simp add: eval_simps fs_simps)
  moreover have "drop 1 (lit ''/My Task.cmd'') = lit ''My Task.cmd''" by (simp add: lit_def)
  ultimately show ?thesis using run by simp
qed

text \<open>
  A record whose name is the empty string (as \<open>addCommandItem\<close> stores it when given
  one) does not keep that name when its file is written: the name becomes absent.
\<close>

theorem writeFile_empty_name_counterexample:
  "commands (snd (addCommandItem \<lparr>name = Some [], command = lit ''ls''\<rparr> (newProvider None)))
     = [(lit ''ls.cmd'', \<lparr>name = Some [], command = lit ''ls''\<rparr>)]
   \<and> matchesSlug (namePartOf (lit ''ls.cmd''))
   \<and> writeFile (lit ''/ls.cmd'') [0x70, 0x77, 0x64] \<lparr>create = False, overwrite = True\<rparr>
        \<lparr>commands = [(lit ''ls.cmd'', \<lparr>name = Some [], command = lit ''ls''\<rparr>)],
         globalState = None, emitted = []\<rparr>
     = (Inr (),
        \<lparr>commands = [(lit ''ls.cmd'', \<lparr>name = None, command = lit ''pwd''\<rparr>)],
         globalState = Some [\<lparr>name = None, command = lit ''pwd''\<rparr>],
         emitted = [[(Changed, UriParse (lit ''commandfile:/''))],
                    [(Changed, UriPath (lit ''/ls.cmd''))]]\<rparr>)"
  by (simp add: eval_simps state_simps fs_simps)

section \<open>rename\<close>

text \<open>
  Claim C9. For every path whose key is in the map, \<open>rename\<close> of the path onto itself
  without \<open>overwrite\<close> throws \<open>FileExists\<close> and changes nothing: the test on the new
  key does not set the old key apart.
\<close>

theorem rename_same_path_no_overwrite:
  "map_has (commands p) (drop 1 path) \<Longrightarrow> rename path path False p = (Inl (FileExists path), p)"
  by (auto simp: rename_def Let_def map_has_get split: option.splits)

theorem rename_same_path_no_overwrite_witness:
  "map_has [(lit ''x.cmd'', \<lparr>name = None, command = lit ''ls''\<rparr>)] (drop 1 (lit ''/x.cmd''))
   \<and> fst (rename (lit ''/x.cmd'') (lit ''/x.cmd'') False
        \<lparr>commands = [(lit ''x.cmd'', \<lparr>name = None, command = lit ''ls''\<rparr>)],
         globalState = None, emitted = []\<rparr>) = Inl (FileExists (lit ''/x.cmd''))"
proof -
  let ?p = "\<lparr>commands = [(lit ''x.cmd'', \<lparr>name = None, command = lit ''ls''\<rparr>)],
         globalState = None, emitted = []\<rparr>"
  have h: "map_has (commands ?p) (drop 1 (lit ''/x.cmd''))" by (simp add: map_has_def lit_def)
  from rename_same_path_no_overwrite [OF h] h show ?thesis by simp
qed

text \<open>
  Claim C6, as the code has it. After a \<open>rename\<close> from \<open>a\<close> to \<open>b\<close> that returned,
  \<open>readFile\<close> of \<open>b\<close> returns the bytes \<open>readFile\<close> of \<open>a\<close> returned before, and, when
  \<open>a\<close> and \<open>b\<close> have different keys, \<open>readFile\<close> of \<open>a\<close> throws \<open>FileNotFound\<close>.
\<close>

theorem rename_preserves_content:
  assumes "fst (rename a b ov p) = Inr ()"
  shows "\<exists>bytes. fst (readFile a p) = Inr bytes
           \<and> fst (readFile b (snd (rename a b ov p))) = Inr bytes
           \<and> (drop 1 a \<noteq> drop 1 b \<longrightarrow>
                fst (readFile a (snd (rename a b ov p))) = Inl (FileNotFound a))"
proof (cases "map_get (commands p) (drop 1 a)")
  case None
  with assms show ?thesis by (simp add: rename_def Let_def)
next
  case (Some oldCommand)
  with assms have ok: "\<not> (map_has (commands p) (drop 1 b) \<and> \<not> ov)"
    by (auto simp: rename_def Let_def split: if_splits)
  have "fst (readFile a p) = Inr (utf8_encode (command oldCommand))"
    using Some by (simp add: readFile_def)
  moreover have "fst (readFile b (snd (rename a b ov p))) = Inr (utf8_encode (command oldCommand))"
    using Some ok by (auto simp: rename_def readFile_def Let_def map_get_map_set)
  moreover have "drop 1 a \<noteq> drop 1 b \<longrightarrow>
      fst (readFile a (snd (rename a b ov p))) = Inl (FileNotFound a)"
    using Some ok by (auto simp: rename_def readFile_def Let_def map_get_map_set map_get_map_delete)
  ultimately show ?thesis by blast
qed

theorem rename_preserves_content_witness:
  "fst (rename (lit ''/x.cmd'') (lit ''/y.cmd'') False
        \<lparr>commands = [(lit ''x.cmd'', \<lparr>name = None, command = lit ''ls''\<rparr>)],
         globalState = None, emitted = []\<rparr>) = Inr ()
   \<and> fst (readFile (lit ''/y.cmd'') (snd (rename (lit ''/x.cmd'') (lit ''/y.cmd'') False
        \<lparr>commands = [(lit ''x.cmd'', \<lparr>name = None, command = lit ''ls''\<rparr>)],
         globalState = None, emitted = []\<rparr>))) = Inr [0x6C, 0x73]
   \<and> fst (readFile (lit ''/x.cmd'') (snd (rename (lit ''/x.cmd'') (lit ''/y.cmd'') False
        \<lparr>commands = [(lit ''x.cmd'', \<lparr>name = None, command = lit ''ls''\<rparr>)],
         globalState = None, emitted = []\<rparr>))) = Inl (FileNotFound (lit ''/x.cmd''))"
proof -
  let ?p = "\<lparr>commands = [(lit ''x.cmd'', \<lparr>name = None, command = lit ''ls''\<rparr>)],
         globalState = None, emitted = []\<rparr>"
  have h: "fst (rename (lit ''/x.cmd'') (lit ''/y.cmd'') False ?p) = Inr ()"
    by (simp add: rename_def lit_def map_get_def map_has_def Let_def)
  have r: "fst (readFile (lit ''/x.cmd'') ?p) = Inr [0x6C, 0x73]"
    by (simp add: eval_simps fs_simps)
  have d: "drop 1 (lit ''/x.cmd'') \<noteq> drop 1 (lit ''/y.cmd'')" by (simp add: lit_def)
  from rename_preserves_content [OF h] r d h show ?thesis by auto
qed

text \<open>
  With \<open>overwrite\<close>, a rename of a path onto itself returns, and the file can still be
  read under that path afterwards.
\<close>

theorem rename_same_path_overwrite_counterexample:
  "fst (rename (lit ''/x.cmd'') (lit ''/x.cmd'') True
        \<lparr>commands = [(lit ''x.cmd'', \<lparr>name = None, command = lit ''ls''\<rparr>)],
         globalState = None, emitted = []\<rparr>) = Inr ()
   \<and> fst (readFile (lit ''/x.cmd'') (snd (rename (lit ''/x.cmd'') (lit ''/x.cmd'') True
        \<lparr>commands = [(lit ''x.cmd'', \<lparr>name = None, command = lit ''ls''\<rparr>)],
         globalState = None, emitted = []\<rparr>))) = Inr [0x6C, 0x73]"
  by (simp add: eval_simps fs_simps saveCommandsToGlobalState_def fire_def)

section \<open>The reading operations\<close>

text \<open>
  Claim C10. \<open>stat\<close>, \<open>readFile\<close> and \<open>readDirectory\<close> leave the provider's state as it
  was, whether they return or throw: the map, the \<open>globalState\<close> slot and the events
  fired are the same after the call as before.
\<close>

theorem read_operations_frame:
  "snd (stat now path p) = p \<and> snd (readFile path p) = p \<and> snd (readDirectory path p) = p"
  by (simp add: stat_def readFile_def readDirectory_def Let_def split: option.splits)

section \<open>Import\<close>

text \<open>
  Claim C8. After \<open>importCommands\<close> the records of the store are those it had before,
  followed by exactly the imported records for which no record of the store before
  the import has the same name and the same command. Importing one record that is in
  the store adds nothing; importing a new record and one that is in the store adds
  the new one only.
\<close>

theorem importCommands_dedup:
  "getAllCommandItems (snd (importCommands imported p))
     = getAllCommandItems p
       @ filter (\<lambda>c. \<not> (\<exists>e \<in> set (getAllCommandItems p). name e = name c \<and> command e = command c))
           imported
   \<and> (r \<in> set (getAllCommandItems p) \<longrightarrow>
        getAllCommandItems (snd (importCommands [r] p)) = getAllCommandItems p)
   \<and> (r \<in> set (getAllCommandItems p)
        \<and> \<not> (\<exists>e \<in> set (getAllCommandItems p). name e = name n \<and> command e = command n) \<longrightarrow>
        getAllCommandItems (snd (importCommands [n, r] p)) = getAllCommandItems p @ [n])"
proof -
  have dup: "\<And>cs c. isDuplicate cs c = (\<exists>e \<in> set cs. name e = name c \<and> command e = command c)"
    by (simp add: isDuplicate_def list_ex_iff)
  have add: "\<And>items. getAllCommandItems (addAll items p) = getAllCommandItems p @ items"
  proof -
    fix items
    from commands_addAll [of items p] obtain ks where "length ks = length items"
      "commands (addAll items p) = commands p @ zip ks items" by blast
    then show "getAllCommandItems (addAll items p) = getAllCommandItems p @ items"
      by (simp add: getAllCommandItems_def map_values_def)
  qed
  have gen: "\<And>imported. getAllCommandItems (snd (importCommands imported p))
     = getAllCommandItems p
       @ filter (\<lambda>c. \<not> (\<exists>e \<in> set (getAllCommandItems p). name e = name c \<and> command e = command c))
           imported"
    by (auto simp: importCommands_def Let_def dup add filter_empty_conv)
  show ?thesis
  proof (intro conjI impI)
    show "getAllCommandItems (snd (importCommands imported p))
     = getAllCommandItems p
       @ filter (\<lambda>c. \<not> (\<exists>e \<in> set (getAllCommandItems p). name e = name c \<and> command e = command c))
           imported"
      by (rule gen)
  next
    assume "r \<in> set (getAllCommandItems p)"
    then show "getAllCommandItems (snd (importCommands [r] p)) = getAllCommandItems p"
      by (auto simp: gen)
  next
    assume "r \<in> set (getAllCommandItems p)
        \<and> \<not> (\<exists>e \<in> set (getAllCommandItems p). name e = name n \<and> command e = command n)"
    then show "getAllCommandItems (snd (importCommands [n, r] p)) = getAllCommandItems p @ [n]"
      by (auto simp: gen)
  qed
qed

theorem importCommands_dedup_witness:
  "getAllCommandItems (snd (importCommands
       [\<lparr>name = None, command = lit ''git status''\<rparr>,
        \<lparr>name = Some (lit ''Build''), command = lit ''npm run build''\<rparr>]
       \<lparr>commands = [(lit ''Build.cmd'', \<lparr>name = Some (lit ''Build''), command = lit ''npm run build''\<rparr>)],
        globalState = None, emitted = []\<rparr>))
     = [\<lparr>name = Some (lit ''Build''), command = lit ''npm run build''\<rparr>,
        \<lparr>name = None, command = lit ''git status''\<rparr>]
   \<and> getAllCommandItems (snd (importCommands
       [\<lparr>name = Some (lit ''Build''), command = lit ''npm run build''\<rparr>]
       \<lparr>commands = [(lit ''Build.cmd'', \<lparr>name = Some (lit ''Build''), command = lit ''npm run build''\<rparr>)],
        globalState = None, emitted = []\<rparr>))
     = [\<lparr>name = Some (lit ''Build''), command = lit ''npm run build''\<rparr>]"
proof -
  let ?B = "\<lparr>name = Some (lit ''Build''), command = lit ''npm run build''\<rparr>"
  let ?N = "\<lparr>name = None, command = lit ''git status''\<rparr>"
  let ?p = "\<lparr>commands = [(lit ''Build.cmd'', ?B)], globalState = None, emitted = []\<rparr>"
  have v: "getAllCommandItems ?p = [?B]" by (simp add: getAllCommandItems_def map_values_def)
  have r: "?B \<in> set (getAllCommandItems ?p)" by (simp add: v)
  have n: "\<not> (\<exists>e \<in> set (getAllCommandItems ?p). name e = name ?N \<and> command e = command ?N)"
    by (simp add: v)
  from importCommands_dedup [of "[?N, ?B]" ?p ?B ?N] r n v show ?thesis by simp
qed

section \<open>Saving and loading\<close>

text \<open>
  When the file names generated from the records are pairwise different, a save
  followed by the construction of a new provider gives the same records back.
\<close>

lemma fold_set_fresh:
  "distinct (map generateFileName cs) \<Longrightarrow>
   \<forall>c \<in> set cs. \<not> map_has acc (generateFileName c) \<Longrightarrow>
   fold (\<lambda>cmd m. map_set (generateFileName cmd) cmd m) cs acc
     = acc @ map (\<lambda>c. (generateFileName c, c)) cs"
proof (induction cs arbitrary: acc)
  case Nil
  then show ?case by simp
next
  case (Cons c cs)
  from Cons.prems have fresh: "\<not> map_has acc (generateFileName c)" by simp
  have "\<forall>d \<in> set cs. \<not> map_has (acc @ [(generateFileName c, c)]) (generateFileName d)"
    using Cons.prems by (auto simp: map_has_def) (metis image_eqI)
  with Cons.IH [of "acc @ [(generateFileName c, c)]"] Cons.prems fresh show ?case
    by (simp add: map_set_fresh)
qed

lemma save_load_distinct_keys:
  "distinct (map generateFileName (getAllCommandItems p)) \<Longrightarrow>
   getAllCommandItems (newProvider (globalState (saveCommandsToGlobalState p)))
     = getAllCommandItems p"
  by (simp add: newProvider_def loadCommandsFromGlobalState_def saveCommandsToGlobalState_def
        fire_def Let_def fold_set_fresh map_has_def getAllCommandItems_def map_values_def comp_def)

text \<open>
  Claim C1. The round trip does not hold for every store. Two records with the name
  \<open>Build\<close> and different commands, added with \<open>addCommandItem\<close>, are kept under
  \<open>Build.cmd\<close> and \<open>Build-1.cmd\<close>; after a save, a new provider generates \<open>Build.cmd\<close> for
  both, and only the second record is left.
\<close>

theorem save_load_loses_record:
  "getAllCommandItems (addAll
       [\<lparr>name = Some (lit ''Build''), command = lit ''npm run build''\<rparr>,
        \<lparr>name = Some (lit ''Build''), command = lit ''make''\<rparr>] (newProvider None))
     = [\<lparr>name = Some (lit ''Build''), command = lit ''npm run build''\<rparr>,
        \<lparr>name = Some (lit ''Build''), command = lit ''make''\<rparr>]
   \<and> getAllCommandItems (newProvider (globalState (saveCommandsToGlobalState (addAll
       [\<lparr>name = Some (lit ''Build''), command = lit ''npm run build''\<rparr>,
        \<lparr>name = Some (lit ''Build''), command = lit ''make''\<rparr>] (newProvider None)))))
     = [\<lparr>name = Some (lit ''Build''), command = lit ''make''\<rparr>]"
  by (simp add: eval_simps state_simps fs_simps)

end
